theory Spec2Isabelle
  imports Main "HOL-Library.AList" "HOL-Library.Sublist"
begin

section \<open>Search lookups of the export admin mixin\<close>

text \<open>
  The methods of \<open>CeleryExportAdminMixin\<close> (export_mixin.py) that turn the GET query
  parameters of the change list into the \<open>admin_filters\<close> of a resource. Python
  exceptions are values of \<open>py_error\<close>; a function that may raise returns
  \<open>py_error + 'a\<close>. Python names that start with an underscore lose it here.
\<close>

datatype py_error = IndexError | Http404

text \<open>\<open>str.removeprefix\<close>: the string without the prefix when it starts with it.\<close>

definition removeprefix :: "string \<Rightarrow> string \<Rightarrow> string" where
  "removeprefix s p = (if prefix p s then drop (length p) s else s)"

text \<open>
  \<open>_export_construct_search\<close>: \<open>field_name[0]\<close> raises IndexError on the empty
  string; the \<open>match\<close> statement picks the lookup and, in the default case, resets
  \<open>search_type\<close> to the empty string before \<open>removeprefix\<close>.
\<close>

definition export_construct_search :: "string \<Rightarrow> py_error + (string \<times> string)" where
  "export_construct_search field_name =
     (case field_name of
        [] \<Rightarrow> Inl IndexError
      | c # _ \<Rightarrow>
          (let (search_type, lookup) =
                 (if c = CHR ''^'' then ([c], ''istartswith'')
                  else if c = CHR ''='' then ([c], ''iexact'')
                  else if c = CHR ''@'' then ([c], ''search'')
                  else ('''', ''icontains''));
               field_name' = removeprefix field_name search_type
           in Inr (field_name' @ ''__'' @ lookup, field_name')))"

section \<open>The search filter\<close>

text \<open>
  A Python \<open>dict\<close> is an association list in insertion order; \<open>d[k] = v\<close> is
  \<open>AList.update k v d\<close>, which replaces the value of a key already there and appends
  a new key at the end.
\<close>

type_synonym str_dict = "(string \<times> string) list"

text \<open>
  The \<open>for\<close> loop of \<open>_export_get_search_filter\<close> over
  \<open>self.get_search_fields(request)\<close>, with its two accumulators
  \<open>search_kwargs\<close> and \<open>used_fields\<close>. An exception of
  \<open>_export_construct_search\<close> leaves the loop.
\<close>

fun search_fields_loop ::
  "string \<Rightarrow> string list \<Rightarrow> str_dict \<Rightarrow> string list \<Rightarrow> py_error + str_dict" where
  "search_fields_loop extracted_value [] search_kwargs used_fields = Inr search_kwargs"
| "search_fields_loop extracted_value (search_field # rest) search_kwargs used_fields =
     (case export_construct_search search_field of
        Inl e \<Rightarrow> Inl e
      | Inr (lookup_field, model_field) \<Rightarrow>
          if model_field \<in> set used_fields
          then search_fields_loop extracted_value rest search_kwargs used_fields
          else search_fields_loop extracted_value rest
                 (AList.update lookup_field extracted_value search_kwargs)
                 (used_fields @ [model_field]))"

text \<open>
  \<open>_export_get_search_filter\<close>; the first argument is the value of
  \<open>self.get_search_fields(request)\<close>, the second the list popped for the key \<open>q\<close>.
\<close>

definition export_get_search_filter :: "string list \<Rightarrow> string list \<Rightarrow> py_error + str_dict" where
  "export_get_search_filter search_fields value =
     (let extracted_value = (case value of [] \<Rightarrow> '''' | v # _ \<Rightarrow> v)
      in search_fields_loop extracted_value search_fields [] [])"

text \<open>
  The two components of the pair that \<open>_export_construct_search\<close> returns for a
  non-empty search field: the key of the lookup and the underlying model field (column).
\<close>

definition lookup_field_of :: "string \<Rightarrow> string" where
  "lookup_field_of search_field = fst (projr (export_construct_search search_field))"

definition model_field_of :: "string \<Rightarrow> string" where
  "model_field_of search_field = snd (projr (export_construct_search search_field))"

text \<open>
  Used in the proofs only: the search fields that the loop does not skip, given the
  model fields already used, and the model field that a lookup key was built from.
\<close>

fun unused_fields :: "string list \<Rightarrow> string list \<Rightarrow> string list" where
  "unused_fields used [] = []"
| "unused_fields used (f # fs) =
     (if model_field_of f \<in> set used then unused_fields used fs
      else f # unused_fields (used @ [model_field_of f]) fs)"

definition key_column :: "string \<Rightarrow> string" where
  "key_column k = rev (drop 2 (dropWhile (\<lambda>c. c \<noteq> CHR ''_'') (rev k)))"

section \<open>The admin filter\<close>

text \<open>
  \<open>dict(request.GET)\<close> maps each key of the query string to the list of its values.
  A value of the returned \<open>admin_filter\<close> is a string, or the dictionary of the search
  lookups that is stored under the key \<open>search\<close>.
\<close>

type_synonym query_dict = "(string \<times> string list) list"

datatype filter_value = Str string | Search str_dict

text \<open>
  A dictionary comprehension assigns its items one after the other, so a later item
  overwrites an earlier one with the same key.
\<close>

definition dict_of_items :: "('k \<times> 'v) list \<Rightarrow> ('k \<times> 'v) list" where
  "dict_of_items items = foldl (\<lambda>d (k, v). AList.update k v d) [] items"

text \<open>
  \<open>query_params[key]\<close> for a key that the comprehension takes from \<open>query_params\<close>
  itself, and \<open>query_params.pop("q", [])\<close> with its default.
\<close>

definition getitem_list :: "query_dict \<Rightarrow> string \<Rightarrow> string list" where
  "getitem_list query_params key = (case map_of query_params key of Some vs \<Rightarrow> vs | None \<Rightarrow> [])"

text \<open>
  \<open>_export_get_admin_filter\<close>; the first two arguments are the values of
  \<open>self.get_list_filter(request)\<close> (its entries that are strings: a key is a string
  and equals no other entry) and of \<open>self.get_search_fields(request)\<close>, the third is
  \<open>dict(request.GET)\<close>.
\<close>

definition export_get_admin_filter ::
  "string list \<Rightarrow> string list \<Rightarrow> query_dict \<Rightarrow> py_error + (string \<times> filter_value) list" where
  "export_get_admin_filter list_filter search_fields request_GET =
     (let value = getitem_list request_GET ''q'';
          query_params = AList.delete ''q'' request_GET
      in case export_get_search_filter search_fields value of
           Inl e \<Rightarrow> Inl e
         | Inr search_kwargs \<Rightarrow>
             (let admin_filter = dict_of_items
                    [(key, Str value).
                       key \<leftarrow> map fst query_params,
                       value \<leftarrow> getitem_list query_params key,
                       key \<in> set list_filter]
              in Inr (AList.update ''search'' (Search search_kwargs) admin_filter)))"

text \<open>Used in the proofs only: the items that the comprehension produces for one key.\<close>

definition key_items :: "string list \<Rightarrow> query_dict \<Rightarrow> string \<Rightarrow> (string \<times> filter_value) list" where
  "key_items list_filter query_params key =
     (if key \<in> set list_filter then map (\<lambda>v. (key, Str v)) (getitem_list query_params key) else [])"

section \<open>Export jobs\<close>

text \<open>
  Modelled from the spec: the \<open>ExportJob\<close> model class (models are not among the source
  files). A job has the fields of section 3 of the specification under the names the
  sources use: \<open>id\<close> (here \<open>pk\<close>), \<open>export_status\<close> with the members of
  \<open>ExportJob.ExportStatus\<close> that the tests name, \<open>resource_path\<close>,
  \<open>resource_kwargs\<close> (any value), \<open>file_format_path\<close> and the optional owner
  \<open>created_by\<close>. The database holds the rows of the job table and the queue of the
  ids of the jobs whose export was started.
\<close>

datatype export_status = CREATED | EXPORTING | EXPORTED | EXPORT_ERROR | CANCELLED

record 'kw export_job =
  pk :: nat
  export_status :: export_status
  resource_path :: string
  resource_kwargs :: 'kw
  file_format_path :: string
  created_by :: "nat option"

record 'kw database =
  export_jobs :: "'kw export_job list"
  task_queue :: "nat list"

text \<open>
  The arguments of the admin methods: the request with its user, a resource class with
  its \<open>class_path\<close>, a format class with its \<open>__module__\<close> and \<open>__name__\<close>.
\<close>

record request =
  user :: nat



text \<open>
  Django's \<open>get_object_or_404(models.ExportJob, id=job_id)\<close>: the row with that id,
  or the exception \<open>Http404\<close>.
\<close>

definition get_object_or_404 :: "'kw export_job list \<Rightarrow> nat \<Rightarrow> py_error + 'kw export_job" where
  "get_object_or_404 table job_id =
     (case find (\<lambda>job. pk job = job_id) table of
        None \<Rightarrow> Inl Http404
      | Some job \<Rightarrow> Inr job)"

text \<open>\<open>get_export_job\<close>: the request is a parameter and is not used.\<close>

definition get_export_job ::
  "'kw database \<Rightarrow> request \<Rightarrow> nat \<Rightarrow> py_error + 'kw export_job" where
  "get_export_job db request job_id = get_object_or_404 (export_jobs db) job_id"

text \<open>
  Modelled from the spec: \<open>ExportJob.objects.create\<close>, the Job Factory of section 4.2
  (the model and its manager are not among the source files). It persists a new job with
  a new id, the status \<open>CREATED\<close> and the given descriptor, kwargs, format and owner.
  Unlike section 4.2, and as the sources say, creating the job starts the export: the
  class docstring of the mixin describes the POST of \<open>celery_export_action\<close> as
  "create ExportJob and starts data export", and that view has no step between
  \<open>create_export_job\<close> and its redirect. Starting the export puts the id of the new job
  on the task queue.
\<close>

definition new_id :: "'kw export_job list \<Rightarrow> nat" where
  "new_id table = Suc (fold max (map pk table) 0)"

definition objects_create ::
  "'kw database \<Rightarrow> string \<Rightarrow> 'kw \<Rightarrow> string \<Rightarrow> nat option \<Rightarrow> 'kw export_job \<times> 'kw database" where
  "objects_create db path kwargs format_path owner =
     (let job = \<lparr>pk = new_id (export_jobs db), export_status = CREATED,
                 resource_path = path, resource_kwargs = kwargs,
                 file_format_path = format_path, created_by = owner\<rparr>
      in (job, db\<lparr>export_jobs := export_jobs db @ [job],
                    task_queue := task_queue db @ [pk job]\<rparr>))"


section \<open>The API surface\<close>

text \<open>
  The errors of section 7 of the specification that the callers of the API see.
\<close>

datatype api_error = NotFound | InvalidState string | ValidationError string string

text \<open>
  Modelled from the spec: the creation surface (the API view behind
  \<open>export-artist-start\<close> is not among the source files; the tests call it). Given the
  outcome of the FilterSpec Resolver it answers 400 with the validation error and
  creates no job, or creates the job and answers 201 with it (section 6).
\<close>

definition export_start ::
  "'kw database \<Rightarrow> api_error + 'kw \<Rightarrow> string \<Rightarrow> string \<Rightarrow> nat option
     \<Rightarrow> (nat \<times> (api_error + 'kw export_job)) \<times> 'kw database" where
  "export_start db resolved path format_path owner =
     (case resolved of
        Inl err \<Rightarrow> ((400, Inl err), db)
      | Inr query_kwargs \<Rightarrow>
          (let (job, db') = objects_create db path query_kwargs format_path owner
           in ((201, Inr job), db')))"

text \<open>
  Modelled from the spec: the message of the InvalidState error of \<open>cancel\<close> (the
  method that raises it is not among the source files), with the wording that
  \<open>test_export_api_cancel_with_errors\<close> expects: the id in decimal, the value of the
  current status between backquotes and the allowed statuses as a Python list of strings.
\<close>

fun str_nat :: "nat \<Rightarrow> string" where
  "str_nat n =
     (if n < 10 then [''0123456789'' ! n]
      else str_nat (n div 10) @ [''0123456789'' ! (n mod 10)])"

declare str_nat.simps [simp del]

fun status_value :: "export_status \<Rightarrow> string" where
  "status_value CREATED = ''CREATED''"
| "status_value EXPORTING = ''EXPORTING''"
| "status_value EXPORTED = ''EXPORTED''"
| "status_value EXPORT_ERROR = ''EXPORT_ERROR''"
| "status_value CANCELLED = ''CANCELLED''"

definition cancel_statuses :: "export_status list" where
  "cancel_statuses = [CREATED, EXPORTING]"

fun join :: "string \<Rightarrow> string list \<Rightarrow> string" where
  "join sep [] = []"
| "join sep [x] = x"
| "join sep (x # y # ys) = x @ sep @ join sep (y # ys)"

definition repr_list :: "string list \<Rightarrow> string" where
  "repr_list xs = ''['' @ join '', '' (map (\<lambda>x. [CHR 0x27] @ x @ [CHR 0x27]) xs) @ '']''"

definition incorrect_status_message :: "nat \<Rightarrow> export_status \<Rightarrow> string" where
  "incorrect_status_message job_id status =
     ''ExportJob with id '' @ str_nat job_id @ '' has incorrect status: `'' @ status_value status
       @ ''`. Expected statuses: '' @ repr_list (map status_value cancel_statuses)"

text \<open>
  Modelled from the spec: \<open>cancel\<close> of the Status/Result Query Service, section 4.5
  (the model method and the API view behind \<open>export-artist-cancel\<close> are not among the
  source files; the tests call the view). A job is visible to a requester when its
  \<open>created_by\<close> is unset or is the requester. \<open>cancel\<close> fails with NotFound when no
  visible job has the id, fails with InvalidState unless the status is \<open>CREATED\<close> or
  \<open>EXPORTING\<close>, and otherwise sets the status to \<open>CANCELLED\<close> by a conditional
  update of the stored row.
\<close>

definition visible_to :: "nat \<Rightarrow> 'kw export_job \<Rightarrow> bool" where
  "visible_to requester job =
     (case created_by job of None \<Rightarrow> True | Some owner \<Rightarrow> owner = requester)"

definition find_visible_job :: "'kw database \<Rightarrow> nat \<Rightarrow> nat \<Rightarrow> 'kw export_job option" where
  "find_visible_job db job_id requester =
     find (\<lambda>job. pk job = job_id \<and> visible_to requester job) (export_jobs db)"

definition mark_cancelled :: "nat \<Rightarrow> 'kw export_job \<Rightarrow> 'kw export_job" where
  "mark_cancelled job_id job =
     (if pk job = job_id \<and> export_status job \<in> set cancel_statuses
      then job\<lparr>export_status := CANCELLED\<rparr> else job)"

definition cancel ::
  "'kw database \<Rightarrow> nat \<Rightarrow> nat \<Rightarrow> api_error + ('kw export_job \<times> 'kw database)" where
  "cancel db job_id requester =
     (case find_visible_job db job_id requester of
        None \<Rightarrow> Inl NotFound
      | Some job \<Rightarrow>
          if export_status job \<in> set cancel_statuses
          then Inr (job\<lparr>export_status := CANCELLED\<rparr>,
                    db\<lparr>export_jobs := map (mark_cancelled job_id) (export_jobs db)\<rparr>)
          else Inl (InvalidState (incorrect_status_message job_id (export_status job))))"

text \<open>
  Modelled from the spec: the resolution of the reserved key \<open>ordering\<close> of section 4.1
  (the API code that validates it is not among the source files; the tests call it). The
  value is split at commas as Python's \<open>str.split\<close> does, a token may carry a leading
  \<open>-\<close>, and the first token whose field is not orderable fails validation under the
  key \<open>ordering\<close> with the message of
  \<open>test_export_api_create_export_job_with_invalid_ordering\<close>, which names the token.
\<close>

fun split :: "char \<Rightarrow> string \<Rightarrow> string list" where
  "split sep [] = [[]]"
| "split sep (c # cs) =
     (if c = sep then [] # split sep cs
      else (let rest = split sep cs in (c # hd rest) # tl rest))"

definition ordering_field :: "string \<Rightarrow> string" where
  "ordering_field token =
     (case token of [] \<Rightarrow> token | c # cs \<Rightarrow> if c = CHR ''-'' then cs else token)"

definition unresolved_message :: "string \<Rightarrow> string" where
  "unresolved_message token =
     ''Cannot resolve keyword '' @ [CHR 0x27] @ token @ [CHR 0x27] @ '' into field.''"

definition resolve_ordering :: "string list \<Rightarrow> string \<Rightarrow> api_error + string list" where
  "resolve_ordering orderable_fields value =
     (let tokens = split CHR '','' value
      in case find (\<lambda>token. ordering_field token \<notin> set orderable_fields) tokens of
           Some token \<Rightarrow> Inl (ValidationError ''ordering'' (unresolved_message token))
         | None \<Rightarrow> Inr tokens)"

section \<open>The export action of the admin\<close>







section \<open>Properties of the search lookup\<close>

lemma removeprefix_head: "removeprefix (c # rest) [c] = rest"
  by (simp add: removeprefix_def)

lemma removeprefix_empty: "removeprefix s '''' = s"
  by (simp add: removeprefix_def)

lemma export_construct_search_Cons:
  "export_construct_search (c # rest) =
     (if c = CHR ''^'' then Inr (rest @ ''__istartswith'', rest)
      else if c = CHR ''='' then Inr (rest @ ''__iexact'', rest)
      else if c = CHR ''@'' then Inr (rest @ ''__search'', rest)
      else Inr (c # rest @ ''__icontains'', c # rest))"
  by (simp add: export_construct_search_def removeprefix_head removeprefix_empty)

text \<open>
  C4. The lookup derived from a search field name depends on its first character only:
  \<open>^\<close> gives \<open>istartswith\<close>, \<open>=\<close> gives \<open>iexact\<close>, \<open>@\<close> gives \<open>search\<close>
  (full-text search) and any other first character gives \<open>icontains\<close>; in the first
  three cases that one character is removed from the field name, in the last the name is
  kept whole. These are the names of Django's case-insensitive starts-with, exact and
  contains lookups and of its full-text search lookup.
\<close>

theorem export_construct_search_prefix:
  "export_construct_search (CHR ''^'' # rest) = Inr (rest @ ''__'' @ ''istartswith'', rest)
   \<and> export_construct_search (CHR ''='' # rest) = Inr (rest @ ''__'' @ ''iexact'', rest)
   \<and> export_construct_search (CHR ''@'' # rest) = Inr (rest @ ''__'' @ ''search'', rest)
   \<and> (c \<notin> {CHR ''^'', CHR ''='', CHR ''@''} \<longrightarrow>
        export_construct_search (c # rest) = Inr ((c # rest) @ ''__'' @ ''icontains'', c # rest))"
  by (simp add: export_construct_search_Cons)

theorem export_construct_search_prefix_witness:
  "export_construct_search ''^name'' = Inr (''name__istartswith'', ''name'')
   \<and> export_construct_search ''=name'' = Inr (''name__iexact'', ''name'')
   \<and> export_construct_search ''@name'' = Inr (''name__search'', ''name'')
   \<and> CHR ''n'' \<notin> {CHR ''^'', CHR ''='', CHR ''@''}
   \<and> export_construct_search ''name'' = Inr (''name__icontains'', ''name'')"
  using export_construct_search_prefix [of "''name''" "CHR ''n''" ]
    export_construct_search_prefix [of "''ame''" "CHR ''n''"]
  by simp



section \<open>Properties of the search filter\<close>

lemma export_construct_search_nonempty:
  "f \<noteq> [] \<Longrightarrow> export_construct_search f = Inr (lookup_field_of f, model_field_of f)"
  by (cases f) (simp_all add: lookup_field_of_def model_field_of_def export_construct_search_Cons)

lemma lookup_field_of_Cons:
  "lookup_field_of (c # rest) =
     (if c = CHR ''^'' then rest @ ''__istartswith''
      else if c = CHR ''='' then rest @ ''__iexact''
      else if c = CHR ''@'' then rest @ ''__search''
      else c # rest @ ''__icontains'')"
  by (simp add: lookup_field_of_def export_construct_search_Cons)

lemma model_field_of_Cons:
  "model_field_of (c # rest) =
     (if c \<in> {CHR ''^'', CHR ''='', CHR ''@''} then rest else c # rest)"
  by (simp add: model_field_of_def export_construct_search_Cons)

lemma key_column_lookup_field:
  "f \<noteq> [] \<Longrightarrow> key_column (lookup_field_of f) = model_field_of f"
  by (cases f) (simp_all add: key_column_def lookup_field_of_Cons model_field_of_Cons)

lemma update_new_key:
  "k \<notin> fst ` set al \<Longrightarrow> AList.update k v al = al @ [(k, v)]"
  by (induction al) auto

lemma search_fields_loop_eq:
  "[] \<notin> set sf \<Longrightarrow> key_column ` fst ` set kw \<subseteq> set used \<Longrightarrow>
   search_fields_loop ev sf kw used =
     Inr (kw @ map (\<lambda>f. (lookup_field_of f, ev)) (unused_fields used sf))"
proof (induction sf arbitrary: kw used)
  case Nil
  then show ?case by simp
next
  case (Cons f fs)
  then have f: "f \<noteq> []" and fs: "[] \<notin> set fs" by auto
  note cs = export_construct_search_nonempty [OF f]
  show ?case
  proof (cases "model_field_of f \<in> set used")
    case True
    then show ?thesis using Cons.IH [OF fs Cons.prems(2)] by (simp add: cs)
  next
    case False
    with Cons.prems(2) have new: "lookup_field_of f \<notin> fst ` set kw"
      using key_column_lookup_field [OF f] by force
    have inv: "key_column ` fst ` set (kw @ [(lookup_field_of f, ev)])
                 \<subseteq> set (used @ [model_field_of f])"
      using Cons.prems(2) key_column_lookup_field [OF f] by auto
    show ?thesis
      using False Cons.IH [OF fs inv] by (simp add: cs update_new_key [OF new])
  qed
qed


lemma set_unused_fields:
  "model_field_of ` set (unused_fields used fs) = model_field_of ` set fs - set used"
  by (induction fs arbitrary: used) auto

lemma distinct_unused_fields:
  "distinct (map model_field_of (unused_fields used fs))"
  by (induction fs arbitrary: used) (auto simp: set_unused_fields)

lemma unused_fields_first:
  "x \<in> set (unused_fields used fs) \<longleftrightarrow>
     (\<exists>pre post. fs = pre @ x # post
        \<and> model_field_of x \<notin> set used \<union> model_field_of ` set pre)"
proof (induction fs arbitrary: used)
  case Nil
  then show ?case by simp
next
  case (Cons f fs)
  show ?case
  proof
    assume "x \<in> set (unused_fields used (f # fs))"
    then consider (head) "model_field_of f \<notin> set used" "x = f"
      | (skip) "model_field_of f \<in> set used" "x \<in> set (unused_fields used fs)"
      | (tail) "model_field_of f \<notin> set used"
               "x \<in> set (unused_fields (used @ [model_field_of f]) fs)"
      by (auto split: if_splits)
    then show "\<exists>pre post. f # fs = pre @ x # post
        \<and> model_field_of x \<notin> set used \<union> model_field_of ` set pre"
    proof cases
      case head
      then have "f # fs = [] @ x # fs" by simp
      with head show ?thesis by fastforce
    next
      case skip
      then obtain pre post where "fs = pre @ x # post"
        "model_field_of x \<notin> set used \<union> model_field_of ` set pre"
        using Cons.IH by blast
      with skip have "f # fs = (f # pre) @ x # post
        \<and> model_field_of x \<notin> set used \<union> model_field_of ` set (f # pre)" by auto
      then show ?thesis by blast
    next
      case tail
      then obtain pre post where "fs = pre @ x # post"
        "model_field_of x \<notin> set (used @ [model_field_of f]) \<union> model_field_of ` set pre"
        using Cons.IH by blast
      then have "f # fs = (f # pre) @ x # post
        \<and> model_field_of x \<notin> set used \<union> model_field_of ` set (f # pre)" by auto
      then show ?thesis by blast
    qed
  next
    assume "\<exists>pre post. f # fs = pre @ x # post
        \<and> model_field_of x \<notin> set used \<union> model_field_of ` set pre"
    then obtain pre post where split: "f # fs = pre @ x # post"
      and fresh: "model_field_of x \<notin> set used \<union> model_field_of ` set pre" by blast
    show "x \<in> set (unused_fields used (f # fs))"
    proof (cases pre)
      case Nil
      with split fresh show ?thesis by simp
    next
      case (Cons g pre')
      with split have g: "g = f" and rest: "fs = pre' @ x # post" by simp_all
      from fresh Cons g have ne: "model_field_of x \<noteq> model_field_of f"
        and fresh': "model_field_of x \<notin> set used \<union> model_field_of ` set pre'" by auto
      from rest fresh' ne
      have "x \<in> set (unused_fields used fs)"
        and "x \<in> set (unused_fields (used @ [model_field_of f]) fs)"
        using Cons.IH by auto
      then show ?thesis by simp
    qed
  qed
qed

lemma export_get_search_filter_eq:
  "[] \<notin> set search_fields \<Longrightarrow>
   export_get_search_filter search_fields value =
     Inr (map (\<lambda>f. (lookup_field_of f, (case value of [] \<Rightarrow> '''' | v # _ \<Rightarrow> v)))
            (unused_fields [] search_fields))"
  by (simp add: export_get_search_filter_def search_fields_loop_eq)

lemma unused_fields_subset: "set (unused_fields used fs) \<subseteq> set fs"
  by (induction fs arbitrary: used) auto

lemma distinct_lookup_fields:
  assumes "[] \<notin> set fs"
  shows "distinct (map lookup_field_of (unused_fields used fs))"
proof -
  have ne: "x \<noteq> []" if "x \<in> set (unused_fields used fs)" for x
    using that assms unused_fields_subset [of used fs] by auto
  have "map model_field_of (unused_fields used fs)
          = map (\<lambda>x. key_column (lookup_field_of x)) (unused_fields used fs)"
    by (rule map_cong [OF refl]) (simp add: key_column_lookup_field ne)
  then have "map model_field_of (unused_fields used fs)
          = map key_column (map lookup_field_of (unused_fields used fs))"
    by (simp add: comp_def)
  with distinct_unused_fields [of used fs] show ?thesis
    by (metis distinct_map)
qed

lemma search_filter_first_per_column:
  assumes "'''' \<notin> set search_fields"
  shows "\<exists>search_kwargs.
           export_get_search_filter search_fields value = Inr search_kwargs
           \<and> distinct (map fst search_kwargs)
           \<and> length search_kwargs = card (model_field_of ` set search_fields)
           \<and> (\<forall>k v. (k, v) \<in> set search_kwargs \<longleftrightarrow>
                 v = (case value of [] \<Rightarrow> '''' | q # _ \<Rightarrow> q)
                 \<and> (\<exists>pre f post. search_fields = pre @ f # post
                       \<and> model_field_of f \<notin> model_field_of ` set pre
                       \<and> k = lookup_field_of f))"
proof -
  define extracted where "extracted = (case value of [] \<Rightarrow> '''' | q # _ \<Rightarrow> q)"
  define kw where "kw = map (\<lambda>f. (lookup_field_of f, extracted)) (unused_fields [] search_fields)"
  have res: "export_get_search_filter search_fields value = Inr kw"
    using assms by (simp add: export_get_search_filter_eq kw_def extracted_def)
  have keys: "map fst kw = map lookup_field_of (unused_fields [] search_fields)"
    by (simp add: kw_def comp_def)
  have dist: "distinct (map fst kw)"
    unfolding keys using assms by (rule distinct_lookup_fields)
  have "length kw = length (map model_field_of (unused_fields [] search_fields))"
    by (simp add: kw_def)
  also have "\<dots> = card (set (map model_field_of (unused_fields [] search_fields)))"
    using distinct_unused_fields [of "[]" search_fields] by (simp only: distinct_card)
  also have "\<dots> = card (model_field_of ` set search_fields)"
    by (simp add: set_unused_fields)
  finally have len: "length kw = card (model_field_of ` set search_fields)" .
  have mem: "(k, v) \<in> set kw \<longleftrightarrow>
                 v = extracted
                 \<and> (\<exists>pre f post. search_fields = pre @ f # post
                       \<and> model_field_of f \<notin> model_field_of ` set pre
                       \<and> k = lookup_field_of f)" for k v
  proof -
    have "(k, v) \<in> set kw \<longleftrightarrow>
            v = extracted \<and> (\<exists>f \<in> set (unused_fields [] search_fields). k = lookup_field_of f)"
      by (auto simp: kw_def)
    also have "\<dots> \<longleftrightarrow> v = extracted
                 \<and> (\<exists>pre f post. search_fields = pre @ f # post
                       \<and> model_field_of f \<notin> model_field_of ` set pre
                       \<and> k = lookup_field_of f)"
      by (simp add: unused_fields_first Bex_def) blast
    finally show ?thesis .
  qed
  from res dist len mem show ?thesis unfolding extracted_def by blast
qed


section \<open>Properties of the admin filter\<close>

lemma dict_of_items_append:
  "dict_of_items (xs @ ys) = foldl (\<lambda>d (k, v). AList.update k v d) (dict_of_items xs) ys"
  by (simp add: dict_of_items_def)

lemma map_of_foldl_update_same_key:
  "map_of (foldl (\<lambda>d (k, v). AList.update k v d) d (map (\<lambda>v. (key, f v)) vs)) k =
     (if k = key \<and> vs \<noteq> [] then Some (f (last vs)) else map_of d k)"
  by (induction vs arbitrary: d) (auto simp: update_conv')

lemma comprehension_eq:
  "[(key, Str value). key \<leftarrow> ks, value \<leftarrow> getitem_list qp key, key \<in> set lf]
     = concat (map (key_items lf qp) ks)"
proof -
  have "concat (map (\<lambda>value. if key \<in> set lf then [(key, Str value)] else []) vs)
          = (if key \<in> set lf then map (\<lambda>v. (key, Str v)) vs else [])" for key vs
    by (induction vs) auto
  then show ?thesis by (simp add: key_items_def [abs_def])
qed

lemma map_of_dict_of_key_items:
  "map_of (dict_of_items (concat (map (key_items lf qp) ks))) k =
     (if k \<in> set ks \<and> k \<in> set lf \<and> getitem_list qp k \<noteq> []
      then Some (Str (last (getitem_list qp k))) else None)"
proof (induction ks rule: rev_induct)
  case Nil
  then show ?case by (simp add: dict_of_items_def)
next
  case (snoc key ks)
  show ?case
  proof (cases "key \<in> set lf")
    case True
    then show ?thesis
      using snoc by (simp add: dict_of_items_append key_items_def map_of_foldl_update_same_key)
  next
    case False
    then show ?thesis
      using snoc by (auto simp add: dict_of_items_append key_items_def)
  qed
qed


lemma getitem_list_delete:
  "k \<noteq> q \<Longrightarrow> getitem_list (AList.delete q qp) k = getitem_list qp k"
  by (simp add: getitem_list_def delete_conv')

lemma keys_delete: "fst ` set (AList.delete q qp) = fst ` set qp - {q}"
  by (induction qp) auto

lemma search_fields_loop_raises:
  "[] \<in> set sf \<Longrightarrow> search_fields_loop ev sf kw used = Inl IndexError"
proof (induction sf arbitrary: kw used)
  case Nil
  then show ?case by simp
next
  case (Cons f fs)
  show ?case
  proof (cases "f = []")
    case True
    then show ?thesis by (simp add: export_construct_search_def)
  next
    case False
    with Cons.prems have "[] \<in> set fs" by auto
    then show ?thesis
      using Cons.IH by (simp add: export_construct_search_nonempty [OF False])
  qed
qed

lemma export_get_search_filter_raises:
  "[] \<in> set sf \<Longrightarrow> export_get_search_filter sf value = Inl IndexError"
  by (simp add: export_get_search_filter_def search_fields_loop_raises)

lemma export_get_search_filter_cases:
  "export_get_search_filter sf value =
     (if [] \<in> set sf then Inl IndexError
      else Inr (map (\<lambda>f. (lookup_field_of f, (case value of [] \<Rightarrow> '''' | v # _ \<Rightarrow> v)))
                  (unused_fields [] sf)))"
  by (simp add: export_get_search_filter_raises export_get_search_filter_eq)

lemma export_get_admin_filter_cases:
  "export_get_admin_filter lf sf qp =
     (if [] \<in> set sf then Inl IndexError
      else Inr (AList.update ''search''
                  (Search (projr (export_get_search_filter sf (getitem_list qp ''q''))))
                  (dict_of_items (concat (map (key_items lf (AList.delete ''q'' qp))
                                           (map fst (AList.delete ''q'' qp)))))))"
  by (simp add: export_get_admin_filter_def Let_def export_get_search_filter_cases
      comprehension_eq del: map_map)

lemma export_get_admin_filter_lookup:
  assumes "export_get_admin_filter lf sf qp = Inr af" and "k \<noteq> ''search''"
  shows "map_of af k =
           (if k \<noteq> ''q'' \<and> k \<in> fst ` set qp \<and> k \<in> set lf \<and> getitem_list qp k \<noteq> []
            then Some (Str (last (getitem_list qp k))) else None)"
proof -
  from assms(1) have "[] \<notin> set sf"
    by (auto simp: export_get_admin_filter_cases split: if_splits)
  with assms(1) have af: "af = AList.update ''search''
                  (Search (projr (export_get_search_filter sf (getitem_list qp ''q''))))
                  (dict_of_items (concat (map (key_items lf (AList.delete ''q'' qp))
                                           (map fst (AList.delete ''q'' qp)))))"
    by (simp add: export_get_admin_filter_cases)
  show ?thesis
  proof (cases "k = ''q''")
    case True
    then show ?thesis
      using assms(2) unfolding af
      by (simp add: update_conv' map_of_dict_of_key_items keys_delete del: map_map)
  next
    case False
    then show ?thesis
      using assms(2) unfolding af
      by (simp add: update_conv' map_of_dict_of_key_items keys_delete getitem_list_delete
          del: map_map)
  qed
qed

lemma getitem_list_Some: "map_of qp k = Some vs \<Longrightarrow> getitem_list qp k = vs"
  by (simp add: getitem_list_def)

lemma key_of_Some: "map_of qp k = Some vs \<Longrightarrow> k \<in> fst ` set qp"
  by (metis map_of_eq_None_iff option.distinct(1))


lemma search_entry:
  "export_get_admin_filter lf sf qp = Inr af \<Longrightarrow>
   export_get_search_filter sf (getitem_list qp ''q'') = Inr kw \<Longrightarrow>
   map_of af ''search'' = Some (Search kw)"
  by (auto simp: export_get_admin_filter_def Let_def update_conv')

lemma first_q_value:
  "(case getitem_list qp ''q'' of [] \<Rightarrow> '''' | v # _ \<Rightarrow> v)
     = (case map_of qp ''q'' of Some (v # _) \<Rightarrow> v | _ \<Rightarrow> '''')"
  by (simp add: getitem_list_def split: option.splits list.splits)

text \<open>
  C5. When no search field is the empty string, the entry \<open>search\<close> of the dictionary
  that \<open>_export_get_admin_filter\<close> returns is the search specification, with one entry
  for each distinct model field (column) among the search fields: its keys are distinct,
  there are as many entries as distinct columns, and an entry \<open>(k, v)\<close> is in it exactly
  when \<open>v\<close> is the extracted search term (the first value of \<open>q\<close>, or the empty
  string when \<open>q\<close> is absent or has no value) and \<open>k\<close> is the lookup key of a search
  field that is the first of the list with its column.
\<close>

theorem export_search_specification:
  assumes "'''' \<notin> set search_fields"
  shows "\<exists>admin_filter search_kwargs.
           export_get_admin_filter list_filter search_fields query_params = Inr admin_filter
           \<and> map_of admin_filter ''search'' = Some (Search search_kwargs)
           \<and> distinct (map fst search_kwargs)
           \<and> length search_kwargs = card (model_field_of ` set search_fields)
           \<and> (\<forall>k v. (k, v) \<in> set search_kwargs \<longleftrightarrow>
                 v = (case map_of query_params ''q'' of Some (q # _) \<Rightarrow> q | _ \<Rightarrow> '''')
                 \<and> (\<exists>pre f post. search_fields = pre @ f # post
                       \<and> model_field_of f \<notin> model_field_of ` set pre
                       \<and> k = lookup_field_of f))"
proof -
  from search_filter_first_per_column [OF assms, of "getitem_list query_params ''q''"]
  obtain search_kwargs where
    filter: "export_get_search_filter search_fields (getitem_list query_params ''q'')
               = Inr search_kwargs"
    and keys: "distinct (map fst search_kwargs)"
    and count: "length search_kwargs = card (model_field_of ` set search_fields)"
    and entries: "\<And>k v. (k, v) \<in> set search_kwargs \<longleftrightarrow>
                 v = (case getitem_list query_params ''q'' of [] \<Rightarrow> '''' | q # _ \<Rightarrow> q)
                 \<and> (\<exists>pre f post. search_fields = pre @ f # post
                       \<and> model_field_of f \<notin> model_field_of ` set pre
                       \<and> k = lookup_field_of f)"
    by blast
  from assms obtain admin_filter where
    res: "export_get_admin_filter list_filter search_fields query_params = Inr admin_filter"
    by (simp add: export_get_admin_filter_cases)
  have entry: "map_of admin_filter ''search'' = Some (Search search_kwargs)"
    using res filter by (rule search_entry)
  from res entry keys count entries show ?thesis
    unfolding first_q_value by blast
qed

theorem export_search_specification_witness:
  "'''' \<notin> set [''^name'', ''=name'', ''id'']
   \<and> export_get_admin_filter [] [''^name'', ''=name'', ''id''] [(''q'', [''abc'', ''zzz''])]
       = Inr [(''search'', Search [(''name__istartswith'', ''abc''), (''id__icontains'', ''abc'')])]
   \<and> card (model_field_of ` set [''^name'', ''=name'', ''id'']) = 2"
proof -
  have fields: "'''' \<notin> set [''^name'', ''=name'', ''id'']" by simp
  have result: "export_get_admin_filter [] [''^name'', ''=name'', ''id''] [(''q'', [''abc'', ''zzz''])]
       = Inr [(''search'', Search [(''name__istartswith'', ''abc''), (''id__icontains'', ''abc'')])]"
    by (simp add: export_get_admin_filter_def export_get_search_filter_def
        export_construct_search_Cons getitem_list_def dict_of_items_def Let_def)
  from export_search_specification [OF fields, of "[]" "[(''q'', [''abc'', ''zzz''])]"] result
  have "card (model_field_of ` set [''^name'', ''=name'', ''id'']) = 2" by auto
  with fields result show ?thesis by simp
qed

text \<open>
  C6, as amended. When no search field is the empty string, \<open>_export_get_admin_filter\<close>
  returns, and for every key of the query other than \<open>q\<close> and \<open>search\<close> that has at
  least one value: the key is in the returned dictionary exactly when it is (as the same
  string, case included) an entry of \<open>list_filter\<close>, and then its value is the last
  value of the key, unchanged and unsplit (for a key with one value, that value). A key
  that is not permitted is left out and nothing is raised for it. The key \<open>search\<close> of
  the result always holds the search lookups, whatever the query gives for it.
\<close>

theorem export_get_admin_filter_permitted_keys:
  assumes "'''' \<notin> set search_fields"
  shows "\<exists>admin_filter.
           export_get_admin_filter list_filter search_fields query_params = Inr admin_filter
           \<and> (\<forall>key values.
                 key \<noteq> ''q'' \<and> key \<noteq> ''search''
                 \<and> map_of query_params key = Some values \<and> values \<noteq> [] \<longrightarrow>
                 (key \<in> fst ` set admin_filter \<longleftrightarrow> key \<in> set list_filter)
                 \<and> (key \<in> set list_filter \<longrightarrow>
                      map_of admin_filter key = Some (Str (last values))))"
proof -
  from assms obtain admin_filter
    where res: "export_get_admin_filter list_filter search_fields query_params = Inr admin_filter"
    by (simp add: export_get_admin_filter_cases)
  have "(key \<in> fst ` set admin_filter \<longleftrightarrow> key \<in> set list_filter)
        \<and> (key \<in> set list_filter \<longrightarrow> map_of admin_filter key = Some (Str (last vs)))"
    if "key \<noteq> ''q''" "key \<noteq> ''search''" "map_of query_params key = Some vs" "vs \<noteq> []"
    for key vs
  proof -
    have "map_of admin_filter key =
            (if key \<in> set list_filter then Some (Str (last vs)) else None)"
      using that export_get_admin_filter_lookup [OF res that(2)]
      by (simp add: getitem_list_Some key_of_Some)
    moreover have "key \<in> fst ` set admin_filter \<longleftrightarrow> map_of admin_filter key \<noteq> None"
      by (simp add: map_of_eq_None_iff)
    ultimately show ?thesis by simp
  qed
  with res show ?thesis by blast
qed

theorem export_get_admin_filter_permitted_keys_witness:
  "'''' \<notin> set [''^name'']
   \<and> export_get_admin_filter [''name__in'', ''id''] [''^name'']
         [(''name__in'', [''Some,Artist'']), (''Name__in'', [''x'']), (''page'', [''2''])]
       = Inr [(''name__in'', Str ''Some,Artist''), (''search'', Search [(''name__istartswith'', '''')])]
   \<and> map_of [(''name__in'', Str ''Some,Artist''), (''search'', Search [(''name__istartswith'', '''')])]
         ''name__in'' = Some (Str ''Some,Artist'')
   \<and> ''Name__in'' \<notin> fst ` set [(''name__in'', Str ''Some,Artist''),
                                    (''search'', Search [(''name__istartswith'', '''')])]"
proof -
  have fields: "'''' \<notin> set [''^name'']" by simp
  have result: "export_get_admin_filter [''name__in'', ''id''] [''^name'']
         [(''name__in'', [''Some,Artist'']), (''Name__in'', [''x'']), (''page'', [''2''])]
       = Inr [(''name__in'', Str ''Some,Artist''), (''search'', Search [(''name__istartswith'', '''')])]"
    by (simp add: export_get_admin_filter_def export_get_search_filter_def
        export_construct_search_Cons getitem_list_def dict_of_items_def Let_def)
  from export_get_admin_filter_permitted_keys [OF fields, of "[''name__in'', ''id'']"
      "[(''name__in'', [''Some,Artist'']), (''Name__in'', [''x'']), (''page'', [''2''])]"]
  obtain af where af: "export_get_admin_filter [''name__in'', ''id''] [''^name'']
         [(''name__in'', [''Some,Artist'']), (''Name__in'', [''x'']), (''page'', [''2''])] = Inr af"
    and keys: "\<And>key values. key \<noteq> ''q'' \<and> key \<noteq> ''search''
                 \<and> map_of [(''name__in'', [''Some,Artist'']), (''Name__in'', [''x'']),
                            (''page'', [''2''])] key = Some values \<and> values \<noteq> [] \<Longrightarrow>
                 (key \<in> fst ` set af \<longleftrightarrow> key \<in> set [''name__in'', ''id''])
                 \<and> (key \<in> set [''name__in'', ''id''] \<longrightarrow>
                      map_of af key = Some (Str (last values)))"
    by blast
  from af result have eq: "af = [(''name__in'', Str ''Some,Artist''),
                                 (''search'', Search [(''name__istartswith'', '''')])]" by simp
  from keys [of "''name__in''" "[''Some,Artist'']"]
  have kept: "map_of af ''name__in'' = Some (Str ''Some,Artist'')" by simp
  from keys [of "''Name__in''" "[''x'']"]
  have dropped: "''Name__in'' \<notin> fst ` set af" by simp
  from fields result kept dropped show ?thesis unfolding eq by blast
qed

theorem export_get_admin_filter_search_key_counterexample:
  "''search'' \<in> set [''search'', ''name'']
   \<and> export_get_admin_filter [''search'', ''name''] [''name'']
         [(''search'', [''x'']), (''q'', [''abc''])]
       = Inr [(''search'', Search [(''name__icontains'', ''abc'')])]
   \<and> map_of [(''search'', Search [(''name__icontains'', ''abc'')])] ''search''
       \<noteq> Some (Str ''x'')"
  by (simp add: export_get_admin_filter_def export_get_search_filter_def
      export_construct_search_Cons getitem_list_def dict_of_items_def Let_def)

text \<open>
  C9, as amended. For every key of \<open>list_filter\<close> other than \<open>q\<close> and \<open>search\<close>
  whose list of values in the query ends with \<open>v\<close>, the dictionary that
  \<open>_export_get_admin_filter\<close> returns maps the key to \<open>v\<close>, whatever the earlier
  values are: each value overwrites the one before.
\<close>

theorem export_get_admin_filter_last_value:
  assumes "export_get_admin_filter list_filter search_fields query_params = Inr admin_filter"
    and "key \<in> set list_filter" and "key \<noteq> ''q''" and "key \<noteq> ''search''"
    and "map_of query_params key = Some (earlier @ [v])"
  shows "map_of admin_filter key = Some (Str v)"
  using export_get_admin_filter_lookup [OF assms(1) assms(4)] assms(2,3,5)
  by (simp add: getitem_list_Some key_of_Some)

theorem export_get_admin_filter_last_value_witness:
  "export_get_admin_filter [''name''] [] [(''name'', [''a'', ''b'', ''c''])]
     = Inr [(''name'', Str ''c''), (''search'', Search [])]
   \<and> ''name'' \<in> set [''name''] \<and> ''name'' \<noteq> ''q'' \<and> ''name'' \<noteq> ''search''
   \<and> map_of [(''name'', [''a'', ''b'', ''c''])] ''name'' = Some ([''a'', ''b''] @ [''c''])
   \<and> map_of [(''name'', Str ''c''), (''search'', Search [])] ''name'' = Some (Str ''c'')"
proof -
  have result: "export_get_admin_filter [''name''] [] [(''name'', [''a'', ''b'', ''c''])]
     = Inr [(''name'', Str ''c''), (''search'', Search [])]"
    by (simp add: export_get_admin_filter_def export_get_search_filter_def
        getitem_list_def dict_of_items_def Let_def)
  have "map_of [(''name'', Str ''c''), (''search'', Search [])] ''name'' = Some (Str ''c'')"
    by (rule export_get_admin_filter_last_value [OF result, of "''name''" "[''a'', ''b'']"])
      simp_all
  with result show ?thesis by simp
qed

theorem export_get_admin_filter_search_overwrites_counterexample:
  "''search'' \<in> set [''search'']
   \<and> export_get_admin_filter [''search''] [] [(''search'', [''a'', ''b''])]
       = Inr [(''search'', Search [])]
   \<and> map_of [(''search'', Search [])] ''search'' \<noteq> Some (Str (last [''a'', ''b'']))"
  by (simp add: export_get_admin_filter_def export_get_search_filter_def
      getitem_list_def dict_of_items_def Let_def)

text \<open>
  C8, as amended. \<open>_export_get_admin_filter\<close> examines no value: it raises exactly when
  a search field is the empty string, and then IndexError, whatever the query holds; and
  for a permitted key other than \<open>q\<close> and \<open>search\<close> with the single value \<open>v\<close> it
  returns a dictionary in which the key has the value \<open>v\<close>, for every string \<open>v\<close>,
  numeric or not.
\<close>

theorem export_get_admin_filter_no_coercion:
  "(export_get_admin_filter list_filter search_fields query_params = Inl e
      \<longleftrightarrow> e = IndexError \<and> '''' \<in> set search_fields)
   \<and> ('''' \<notin> set search_fields \<and> key \<in> set list_filter \<and> key \<noteq> ''q'' \<and> key \<noteq> ''search''
        \<and> map_of query_params key = Some [v] \<longrightarrow>
        (\<exists>admin_filter.
           export_get_admin_filter list_filter search_fields query_params = Inr admin_filter
           \<and> map_of admin_filter key = Some (Str v)))"
proof -
  have fails: "export_get_admin_filter list_filter search_fields query_params = Inl e
      \<longleftrightarrow> e = IndexError \<and> '''' \<in> set search_fields"
    by (auto simp: export_get_admin_filter_cases)
  have passes: "\<exists>admin_filter.
           export_get_admin_filter list_filter search_fields query_params = Inr admin_filter
           \<and> map_of admin_filter key = Some (Str v)"
    if "'''' \<notin> set search_fields" "key \<in> set list_filter" "key \<noteq> ''q''" "key \<noteq> ''search''"
      "map_of query_params key = Some [v]"
  proof -
    from that(1) obtain admin_filter
      where res: "export_get_admin_filter list_filter search_fields query_params = Inr admin_filter"
      by (simp add: export_get_admin_filter_cases)
    from export_get_admin_filter_lookup [OF res that(4)] that(2,3,5)
    have "map_of admin_filter key = Some (Str v)"
      by (simp add: getitem_list_Some key_of_Some)
    with res show ?thesis by blast
  qed
  from fails passes show ?thesis by blast
qed

theorem export_get_admin_filter_no_coercion_witness:
  "'''' \<notin> set [''name''] \<and> ''id'' \<in> set [''id''] \<and> ''id'' \<noteq> ''q'' \<and> ''id'' \<noteq> ''search''
   \<and> map_of [(''id'', [''invalid_id''])] ''id'' = Some [''invalid_id'']
   \<and> export_get_admin_filter [''id''] [''name''] [(''id'', [''invalid_id''])]
       = Inr [(''id'', Str ''invalid_id''), (''search'', Search [(''name__icontains'', '''')])]
   \<and> export_get_admin_filter [''id''] [''name''] [(''id'', [''invalid_id''])] \<noteq> Inl IndexError"
proof -
  have result: "export_get_admin_filter [''id''] [''name''] [(''id'', [''invalid_id''])]
       = Inr [(''id'', Str ''invalid_id''), (''search'', Search [(''name__icontains'', '''')])]"
    by (simp add: export_get_admin_filter_def export_get_search_filter_def
        export_construct_search_Cons getitem_list_def dict_of_items_def Let_def)
  from export_get_admin_filter_no_coercion [of "[''id'']" "[''name'']"
      "[(''id'', [''invalid_id''])]" IndexError]
  have "export_get_admin_filter [''id''] [''name''] [(''id'', [''invalid_id''])] \<noteq> Inl IndexError"
    by simp
  with result show ?thesis by simp
qed

theorem export_get_admin_filter_invalid_id_counterexample:
  "''id'' \<in> set [''id'']
   \<and> export_get_admin_filter [''id''] [] [(''id'', [''invalid_id''])]
       = Inr [(''id'', Str ''invalid_id''), (''search'', Search [])]"
  by (simp add: export_get_admin_filter_def export_get_search_filter_def
      getitem_list_def dict_of_items_def Let_def)

section \<open>Properties of the export jobs and of the API surface\<close>

lemma get_object_or_404_cases:
  "get_object_or_404 table job_id =
     (if job_id \<in> pk ` set table
      then Inr (the (find (\<lambda>job. pk job = job_id) table)) else Inl Http404)"
proof (cases "find (\<lambda>job. pk job = job_id) table")
  case None
  then have "job_id \<notin> pk ` set table" by (auto simp: find_None_iff)
  with None show ?thesis by (simp add: get_object_or_404_def)
next
  case (Some job)
  then have "job_id \<in> pk ` set table" by (auto simp: find_Some_iff)
  with Some show ?thesis by (simp add: get_object_or_404_def)
qed

lemma find_in_table:
  "find (\<lambda>job. pk job = job_id) table = Some job \<Longrightarrow> job \<in> set table \<and> pk job = job_id"
  by (auto simp: find_Some_iff)

lemma find_distinct_pk:
  "distinct (map pk table) \<Longrightarrow> job \<in> set table \<Longrightarrow>
   find (\<lambda>j. pk j = pk job) table = Some job"
  by (induction table) (auto simp: rev_image_eqI)

text \<open>
  C2, as amended. \<open>get_export_job\<close> fails exactly when no job has the id, and then with
  \<open>Http404\<close>; when a job has the id, a job with that id is returned, whatever its
  \<open>created_by\<close> and whoever asks: with distinct ids every stored job is returned for
  its id, and the result is the same for every request. So a job whose owner is unset
  or is the requester is returned, and so is a job of another owner.
\<close>

theorem get_export_job_by_id_only:
  "(get_export_job db request job_id = Inl e
      \<longleftrightarrow> e = Http404 \<and> job_id \<notin> pk ` set (export_jobs db))
   \<and> (job_id \<in> pk ` set (export_jobs db) \<longrightarrow>
        (\<exists>job. get_export_job db request job_id = Inr job
               \<and> job \<in> set (export_jobs db) \<and> pk job = job_id))
   \<and> (distinct (map pk (export_jobs db)) \<and> job \<in> set (export_jobs db) \<longrightarrow>
        get_export_job db request (pk job) = Inr job)
   \<and> get_export_job db request job_id = get_export_job db request' job_id"
proof -
  have absent: "get_export_job db request job_id = Inl e
      \<longleftrightarrow> e = Http404 \<and> job_id \<notin> pk ` set (export_jobs db)"
    by (auto simp: get_export_job_def get_object_or_404_cases)
  have present: "\<exists>job. get_export_job db request job_id = Inr job
               \<and> job \<in> set (export_jobs db) \<and> pk job = job_id"
    if "job_id \<in> pk ` set (export_jobs db)"
  proof -
    from that obtain job where "find (\<lambda>job. pk job = job_id) (export_jobs db) = Some job"
      by (cases "find (\<lambda>job. pk job = job_id) (export_jobs db)") (auto simp: find_None_iff)
    then show ?thesis
      using find_in_table [of job_id "export_jobs db" job]
      by (simp add: get_export_job_def get_object_or_404_def)
  qed
  have any_owner: "get_export_job db request (pk job) = Inr job"
    if "distinct (map pk (export_jobs db))" "job \<in> set (export_jobs db)"
    using find_distinct_pk [OF that] by (simp add: get_export_job_def get_object_or_404_def)
  have "get_export_job db request job_id = get_export_job db request' job_id"
    by (simp add: get_export_job_def)
  with absent present any_owner show ?thesis by blast
qed

theorem get_export_job_by_id_only_witness:
  "get_export_job
     \<lparr>export_jobs = [\<lparr>pk = 1, export_status = EXPORTED, resource_path = ''app.ArtistResource'',
                       resource_kwargs = (), file_format_path = ''formats.CSV'',
                       created_by = Some 7\<rparr>], task_queue = []\<rparr> \<lparr>user = 3\<rparr> 2 = Inl Http404
   \<and> get_export_job
     \<lparr>export_jobs = [\<lparr>pk = 1, export_status = EXPORTED, resource_path = ''app.ArtistResource'',
                       resource_kwargs = (), file_format_path = ''formats.CSV'',
                       created_by = Some 7\<rparr>], task_queue = []\<rparr> \<lparr>user = 3\<rparr> 1
     = Inr \<lparr>pk = 1, export_status = EXPORTED, resource_path = ''app.ArtistResource'',
            resource_kwargs = (), file_format_path = ''formats.CSV'', created_by = Some 7\<rparr>"
  using get_export_job_by_id_only [of
      "\<lparr>export_jobs = [\<lparr>pk = 1, export_status = EXPORTED, resource_path = ''app.ArtistResource'',
                       resource_kwargs = (), file_format_path = ''formats.CSV'',
                       created_by = Some 7\<rparr>], task_queue = []\<rparr>"
      "\<lparr>user = 3\<rparr>" 2 Http404
      "\<lparr>pk = 1, export_status = EXPORTED, resource_path = ''app.ArtistResource'',
        resource_kwargs = (), file_format_path = ''formats.CSV'', created_by = Some 7\<rparr>"]
  by simp

theorem get_export_job_other_owner_counterexample:
  "get_export_job
     \<lparr>export_jobs = [\<lparr>pk = 1, export_status = EXPORTED, resource_path = ''app.ArtistResource'',
                       resource_kwargs = (), file_format_path = ''formats.CSV'',
                       created_by = Some 7\<rparr>], task_queue = []\<rparr> \<lparr>user = 3\<rparr> 1
     = Inr \<lparr>pk = 1, export_status = EXPORTED, resource_path = ''app.ArtistResource'',
            resource_kwargs = (), file_format_path = ''formats.CSV'', created_by = Some 7\<rparr>
   \<and> Some (user \<lparr>user = 3\<rparr>) \<noteq> Some (7::nat)
   \<and> get_export_job
     \<lparr>export_jobs = [\<lparr>pk = 1, export_status = EXPORTED, resource_path = ''app.ArtistResource'',
                       resource_kwargs = (), file_format_path = ''formats.CSV'',
                       created_by = Some 7\<rparr>], task_queue = []\<rparr> \<lparr>user = 3\<rparr> 1 \<noteq> Inl Http404"
  by (simp add: get_export_job_def get_object_or_404_def)








lemma find_map_preserved:
  "(\<And>x. P (f x) = P x) \<Longrightarrow> find P (map f xs) = map_option f (find P xs)"
  by (induction xs) auto

lemma find_visible_after_cancel:
  assumes "find_visible_job db job_id requester = Some job"
    and "export_status job \<in> set cancel_statuses"
  shows "find_visible_job (db\<lparr>export_jobs := map (mark_cancelled job_id) (export_jobs db)\<rparr>)
           job_id requester = Some (job\<lparr>export_status := CANCELLED\<rparr>)"
proof -
  have keep: "(pk (mark_cancelled job_id x) = job_id \<and> visible_to requester (mark_cancelled job_id x))
                = (pk x = job_id \<and> visible_to requester x)" for x :: "'a export_job"
    by (simp add: mark_cancelled_def visible_to_def)
  from assms(1) have "pk job = job_id"
    by (auto simp: find_visible_job_def find_Some_iff)
  with assms(2) have marked: "mark_cancelled job_id job = job\<lparr>export_status := CANCELLED\<rparr>"
    by (simp add: mark_cancelled_def)
  have "find (\<lambda>j. pk j = job_id \<and> visible_to requester j)
          (map (mark_cancelled job_id) (export_jobs db))
        = map_option (mark_cancelled job_id)
            (find (\<lambda>j. pk j = job_id \<and> visible_to requester j) (export_jobs db))"
    by (rule find_map_preserved) (rule keep)
  with assms(1) marked show ?thesis
    by (simp add: find_visible_job_def)
qed

lemma incorrect_status_message_text:
  "incorrect_status_message job_id status =
     ''ExportJob with id '' @ str_nat job_id @ '' has incorrect status: `''
       @ status_value status @ ''`. Expected statuses: [''
       @ [CHR 0x27] @ ''CREATED'' @ [CHR 0x27] @ '', '' @ [CHR 0x27] @ ''EXPORTING'' @ [CHR 0x27]
       @ '']''"
  by (simp add: incorrect_status_message_def repr_list_def cancel_statuses_def)

text \<open>
  C1. For a job that the requester can see, \<open>cancel\<close> succeeds exactly when the status
  is \<open>CREATED\<close> or \<open>EXPORTING\<close>. It then returns the job with the status
  \<open>CANCELLED\<close>, the stored job has that status, and a second \<open>cancel\<close> fails with
  the InvalidState error that names \<open>CANCELLED\<close>. With any other status it fails with
  the InvalidState error whose message names the id, the current status and the allowed
  statuses \<open>['CREATED', 'EXPORTING']\<close>.
\<close>

theorem cancel_allowed_statuses:
  assumes "find_visible_job db job_id requester = Some job"
  shows "((\<exists>result. cancel db job_id requester = Inr result)
            \<longleftrightarrow> export_status job \<in> {CREATED, EXPORTING})
    \<and> (export_status job \<in> {CREATED, EXPORTING} \<longrightarrow>
         (\<exists>db'. cancel db job_id requester = Inr (job\<lparr>export_status := CANCELLED\<rparr>, db')
            \<and> find_visible_job db' job_id requester = Some (job\<lparr>export_status := CANCELLED\<rparr>)
            \<and> cancel db' job_id requester
                = Inl (InvalidState (incorrect_status_message job_id CANCELLED))))
    \<and> (export_status job \<notin> {CREATED, EXPORTING} \<longrightarrow>
         cancel db job_id requester
           = Inl (InvalidState (incorrect_status_message job_id (export_status job))))
    \<and> incorrect_status_message job_id (export_status job) =
         ''ExportJob with id '' @ str_nat job_id @ '' has incorrect status: `''
           @ status_value (export_status job) @ ''`. Expected statuses: [''
           @ [CHR 0x27] @ ''CREATED'' @ [CHR 0x27] @ '', ''
           @ [CHR 0x27] @ ''EXPORTING'' @ [CHR 0x27] @ '']''"
proof -
  have allowed: "export_status job \<in> set cancel_statuses
                   \<longleftrightarrow> export_status job \<in> {CREATED, EXPORTING}"
    by (simp add: cancel_statuses_def)
  have succeeds: "(\<exists>result. cancel db job_id requester = Inr result)
            \<longleftrightarrow> export_status job \<in> {CREATED, EXPORTING}"
    using assms allowed by (simp add: cancel_def)
  have again: "\<exists>db'. cancel db job_id requester = Inr (job\<lparr>export_status := CANCELLED\<rparr>, db')
            \<and> find_visible_job db' job_id requester = Some (job\<lparr>export_status := CANCELLED\<rparr>)
            \<and> cancel db' job_id requester
                = Inl (InvalidState (incorrect_status_message job_id CANCELLED))"
    if ok: "export_status job \<in> {CREATED, EXPORTING}"
  proof -
    define db' where "db' = db\<lparr>export_jobs := map (mark_cancelled job_id) (export_jobs db)\<rparr>"
    from ok allowed have st: "export_status job \<in> set cancel_statuses" by simp
    have first: "cancel db job_id requester = Inr (job\<lparr>export_status := CANCELLED\<rparr>, db')"
      using assms st by (simp add: cancel_def db'_def)
    have seen: "find_visible_job db' job_id requester = Some (job\<lparr>export_status := CANCELLED\<rparr>)"
      unfolding db'_def using assms st by (rule find_visible_after_cancel)
    have "cancel db' job_id requester
            = Inl (InvalidState (incorrect_status_message job_id CANCELLED))"
      by (simp add: cancel_def seen cancel_statuses_def)
    with first seen show ?thesis by blast
  qed
  have refused: "cancel db job_id requester
           = Inl (InvalidState (incorrect_status_message job_id (export_status job)))"
    if "export_status job \<notin> {CREATED, EXPORTING}"
    using assms that allowed by (simp add: cancel_def)
  from succeeds again refused incorrect_status_message_text [of job_id "export_status job"]
  show ?thesis by blast
qed

theorem cancel_allowed_statuses_witness:
  "find_visible_job
     \<lparr>export_jobs = [\<lparr>pk = 12, export_status = EXPORTING, resource_path = ''app.ArtistResource'',
                       resource_kwargs = (), file_format_path = ''formats.CSV'',
                       created_by = None\<rparr>], task_queue = []\<rparr> 12 5
     = Some \<lparr>pk = 12, export_status = EXPORTING, resource_path = ''app.ArtistResource'',
             resource_kwargs = (), file_format_path = ''formats.CSV'', created_by = None\<rparr>
   \<and> cancel
     \<lparr>export_jobs = [\<lparr>pk = 12, export_status = EXPORTING, resource_path = ''app.ArtistResource'',
                       resource_kwargs = (), file_format_path = ''formats.CSV'',
                       created_by = None\<rparr>], task_queue = []\<rparr> 12 5
     = Inr (\<lparr>pk = 12, export_status = CANCELLED, resource_path = ''app.ArtistResource'',
              resource_kwargs = (), file_format_path = ''formats.CSV'', created_by = None\<rparr>,
            \<lparr>export_jobs = [\<lparr>pk = 12, export_status = CANCELLED,
                       resource_path = ''app.ArtistResource'',
                       resource_kwargs = (), file_format_path = ''formats.CSV'',
                       created_by = None\<rparr>], task_queue = []\<rparr>)
   \<and> cancel
     \<lparr>export_jobs = [\<lparr>pk = 12, export_status = CANCELLED, resource_path = ''app.ArtistResource'',
                       resource_kwargs = (), file_format_path = ''formats.CSV'',
                       created_by = None\<rparr>], task_queue = []\<rparr> 12 5
     = Inl (InvalidState (''ExportJob with id 12 has incorrect status: `CANCELLED`. ''
            @ ''Expected statuses: ['' @ [CHR 0x27] @ ''CREATED'' @ [CHR 0x27] @ '', ''
            @ [CHR 0x27] @ ''EXPORTING'' @ [CHR 0x27] @ '']''))"
proof -
  let ?job = "\<lparr>pk = 12, export_status = EXPORTING, resource_path = ''app.ArtistResource'',
             resource_kwargs = (), file_format_path = ''formats.CSV'', created_by = None\<rparr>"
  let ?db = "\<lparr>export_jobs = [?job], task_queue = []\<rparr>"
  have seen: "find_visible_job ?db 12 5 = Some ?job"
    by (simp add: find_visible_job_def visible_to_def)
  have first: "cancel ?db 12 5 = Inr (?job\<lparr>export_status := CANCELLED\<rparr>,
      \<lparr>export_jobs = [?job\<lparr>export_status := CANCELLED\<rparr>], task_queue = []\<rparr>)"
    by (simp add: cancel_def seen cancel_statuses_def mark_cancelled_def)
  from cancel_allowed_statuses [OF seen] first
  have second: "cancel \<lparr>export_jobs = [?job\<lparr>export_status := CANCELLED\<rparr>], task_queue = []\<rparr> 12 5
      = Inl (InvalidState (incorrect_status_message 12 CANCELLED))"
    by auto
  have digits: "str_nat 12 = ''12''"
    by (simp add: str_nat.simps)
  have "incorrect_status_message 12 CANCELLED =
          ''ExportJob with id 12 has incorrect status: `CANCELLED`. ''
            @ ''Expected statuses: ['' @ [CHR 0x27] @ ''CREATED'' @ [CHR 0x27] @ '', ''
            @ [CHR 0x27] @ ''EXPORTING'' @ [CHR 0x27] @ '']''"
    by (simp add: incorrect_status_message_text digits)
  with seen first second show ?thesis by simp
qed

lemma split_not_empty: "split sep s \<noteq> []"
  by (induction s) (auto simp: Let_def)

lemma join_Cons_Cons: "join sep ((c # x) # xs) = c # join sep (x # xs)"
  by (cases xs) simp_all

lemma join_split: "join [sep] (split sep s) = s"
proof (induction s)
  case Nil
  then show ?case by simp
next
  case (Cons c cs)
  obtain r rs where r: "split sep cs = r # rs"
    using split_not_empty [of sep cs] by (cases "split sep cs") auto
  with Cons show ?case by (simp add: Let_def join_Cons_Cons)
qed

lemma split_tokens_no_sep: "token \<in> set (split sep s) \<Longrightarrow> sep \<notin> set token"
proof (induction s arbitrary: token)
  case Nil
  then show ?case by simp
next
  case (Cons c cs)
  obtain r rs where r: "split sep cs = r # rs"
    using split_not_empty [of sep cs] by (cases "split sep cs") auto
  with Cons.IH have "sep \<notin> set r" and "\<And>t. t \<in> set rs \<Longrightarrow> sep \<notin> set t" by auto
  with Cons.prems r show ?case by (auto simp: Let_def split: if_splits)
qed

text \<open>
  C7. The value of \<open>ordering\<close> is split at its commas: joining the tokens with commas
  gives the value back and no token holds a comma. When the field of every token (the
  token without a leading \<open>-\<close>) is orderable, the resolution returns the tokens in
  order. When some token is not, it fails with a validation error under \<open>ordering\<close>
  whose message names such a token, and the creation surface answers 400 and leaves the
  database as it was.
\<close>

theorem resolve_ordering_tokens:
  "join '','' (split CHR '','' value) = value
   \<and> (\<forall>token \<in> set (split CHR '','' value). CHR '','' \<notin> set token)
   \<and> ((\<forall>token \<in> set (split CHR '','' value). ordering_field token \<in> set orderable_fields) \<longrightarrow>
        resolve_ordering orderable_fields value = Inr (split CHR '','' value))
   \<and> ((\<exists>token \<in> set (split CHR '','' value). ordering_field token \<notin> set orderable_fields) \<longrightarrow>
        (\<exists>token \<in> set (split CHR '','' value).
           ordering_field token \<notin> set orderable_fields
           \<and> resolve_ordering orderable_fields value
               = Inl (ValidationError ''ordering''
                   (''Cannot resolve keyword '' @ [CHR 0x27] @ token @ [CHR 0x27] @ '' into field.''))
           \<and> export_start db (map_sum id make_kwargs (resolve_ordering orderable_fields value))
                path format_path owner
               = ((400, Inl (ValidationError ''ordering''
                   (''Cannot resolve keyword '' @ [CHR 0x27] @ token @ [CHR 0x27] @ '' into field.''))),
                  db)))"
proof -
  let ?tokens = "split CHR '','' value"
  let ?bad = "\<lambda>token. ordering_field token \<notin> set orderable_fields"
  have joined: "join '','' ?tokens = value" by (rule join_split)
  have clean: "\<forall>token \<in> set ?tokens. CHR '','' \<notin> set token"
    by (simp add: split_tokens_no_sep)
  have good: "resolve_ordering orderable_fields value = Inr ?tokens"
    if "\<forall>token \<in> set ?tokens. ordering_field token \<in> set orderable_fields"
  proof -
    from that have "find ?bad ?tokens = None" by (simp add: find_None_iff)
    then show ?thesis by (simp add: resolve_ordering_def)
  qed
  have bad: "\<exists>token \<in> set ?tokens. ?bad token
           \<and> resolve_ordering orderable_fields value
               = Inl (ValidationError ''ordering''
                   (''Cannot resolve keyword '' @ [CHR 0x27] @ token @ [CHR 0x27] @ '' into field.''))
           \<and> export_start db (map_sum id make_kwargs (resolve_ordering orderable_fields value))
                path format_path owner
               = ((400, Inl (ValidationError ''ordering''
                   (''Cannot resolve keyword '' @ [CHR 0x27] @ token @ [CHR 0x27] @ '' into field.''))),
                  db)"
    if "\<exists>token \<in> set ?tokens. ?bad token"
  proof -
    from that obtain token where found: "find ?bad ?tokens = Some token"
      by (cases "find ?bad ?tokens") (auto simp: find_None_iff)
    then have member: "token \<in> set ?tokens" and unresolved: "?bad token"
      by (auto simp: find_Some_iff)
    have failed: "resolve_ordering orderable_fields value
               = Inl (ValidationError ''ordering''
                   (''Cannot resolve keyword '' @ [CHR 0x27] @ token @ [CHR 0x27] @ '' into field.''))"
      using found by (simp add: resolve_ordering_def unresolved_message_def)
    have "export_start db (map_sum id make_kwargs (resolve_ordering orderable_fields value))
                path format_path owner
               = ((400, Inl (ValidationError ''ordering''
                   (''Cannot resolve keyword '' @ [CHR 0x27] @ token @ [CHR 0x27] @ '' into field.''))),
                  db)"
      unfolding failed by (simp add: export_start_def)
    with member unresolved failed show ?thesis by blast
  qed
  from joined clean good bad show ?thesis by blast
qed

theorem resolve_ordering_tokens_witness:
  "resolve_ordering [''name'', ''id''] ''name,-id'' = Inr [''name'', ''-id'']
   \<and> resolve_ordering [''name'', ''id''] ''name,bogus_field''
      = Inl (ValidationError ''ordering''
           (''Cannot resolve keyword '' @ [CHR 0x27] @ ''bogus_field'' @ [CHR 0x27] @ '' into field.''))
   \<and> join '','' [''name'', ''-id''] = ''name,-id''"
proof -
  have tokens: "split CHR '','' ''name,-id'' = [''name'', ''-id'']"
    by (simp add: Let_def)
  have good: "resolve_ordering [''name'', ''id''] ''name,-id'' = Inr [''name'', ''-id'']"
    by (simp add: resolve_ordering_def ordering_field_def Let_def)
  have bad: "resolve_ordering [''name'', ''id''] ''name,bogus_field''
      = Inl (ValidationError ''ordering''
           (''Cannot resolve keyword '' @ [CHR 0x27] @ ''bogus_field'' @ [CHR 0x27] @ '' into field.''))"
    by (simp add: resolve_ordering_def ordering_field_def unresolved_message_def Let_def)
  from resolve_ordering_tokens [of "''name,-id''"] tokens
  have "join '','' [''name'', ''-id''] = ''name,-id''" by simp
  with good bad show ?thesis by simp
qed

end
